theory Spec2Isabelle
  imports Complex_Main "HOL-Library.Sublist" "HOL-Library.AList"
begin

section \<open>Strings\<close>

text \<open>
  A Python \<open>str\<close> is a sequence of Unicode code points, so a string is modelled as the
  list of its code points. \<open>lit\<close> turns an ASCII literal of the source into that list.
\<close>

type_synonym pystr = "nat list"

definition lit :: "string \<Rightarrow> pystr" where
  "lit s = map of_char s"

abbreviation (input) ASTERISK :: nat where "ASTERISK \<equiv> 42"
abbreviation (input) UNDERSCORE :: nat where "UNDERSCORE \<equiv> 95"
abbreviation (input) HASH :: nat where "HASH \<equiv> 35"
abbreviation (input) BACKTICK :: nat where "BACKTICK \<equiv> 96"
abbreviation (input) NEWLINE :: nat where "NEWLINE \<equiv> 10"

text \<open>
  The whitespace of CPython (\<open>Py_UNICODE_ISSPACE\<close>), which both the regular expression
  class \<open>\s\<close> on \<open>str\<close> patterns and \<open>str.strip()\<close> use: U+0009..U+000D, U+001C..U+0020,
  U+0085, U+00A0, U+1680, U+2000..U+200A, U+2028, U+2029, U+202F, U+205F, U+3000.
\<close>

definition is_space :: "nat \<Rightarrow> bool" where
  "is_space c \<longleftrightarrow>
     (9 \<le> c \<and> c \<le> 13) \<or> (28 \<le> c \<and> c \<le> 32) \<or> c = 133 \<or> c = 160 \<or> c = 5760 \<or>
     (8192 \<le> c \<and> c \<le> 8202) \<or> c = 8232 \<or> c = 8233 \<or> c = 8239 \<or> c = 8287 \<or> c = 12288"

section \<open>The markdown cleaner\<close>

text \<open>
  \<^verbatim>\<open>
  def clean_markdown(text):
      text = re.sub(r"(\*\*|__)", "", text)         # remove bold markers
      text = re.sub(r"(#+\s*)", "", text)            # remove headings
      text = re.sub(r"`", "", text)                  # remove backticks
      text = re.sub(r"\n{3,}", "\n\n", text)         # collapse excessive line breaks
      return text.strip()
  \<close>
  \<open>re.sub\<close> scans from left to right; at each position it tries the pattern, replaces the
  leftmost match and goes on after it; where the pattern does not match, the character is
  kept and the scan moves one position on. None of the four patterns matches the empty
  string. Each substitution is one function.
\<close>

text \<open>\<open>(\*\*|__)\<close>: two asterisks or two underscores.\<close>

fun remove_bold :: "pystr \<Rightarrow> pystr" where
  "remove_bold (a # b # cs) =
     (if (a = ASTERISK \<and> b = ASTERISK) \<or> (a = UNDERSCORE \<and> b = UNDERSCORE)
      then remove_bold cs
      else a # remove_bold (b # cs))"
| "remove_bold cs = cs"

text \<open>
  \<open>(#+\s*)\<close>: a maximal run of \<open>#\<close> and then a maximal run of whitespace (both
  quantifiers are greedy and nothing follows them, so there is no backtracking).
\<close>

function remove_headings :: "pystr \<Rightarrow> pystr" where
  "remove_headings [] = []"
| "remove_headings (c # cs) =
     (if c = HASH
      then remove_headings (dropWhile is_space (dropWhile (\<lambda>x. x = HASH) cs))
      else c # remove_headings cs)"
  by pat_completeness auto
termination
proof (relation "measure length")
  show "wf (measure length)" by simp
next
  fix c :: nat and cs :: pystr
  have "length (dropWhile is_space (dropWhile (\<lambda>x. x = HASH) cs)) \<le> length cs"
    by (rule order_trans [OF length_dropWhile_le length_dropWhile_le])
  then show "(dropWhile is_space (dropWhile (\<lambda>x. x = HASH) cs), c # cs) \<in> measure length"
    by simp
next
  fix c :: nat and cs :: pystr
  show "(cs, c # cs) \<in> measure length" by simp
qed

definition remove_backticks :: "pystr \<Rightarrow> pystr" where
  "remove_backticks text = filter (\<lambda>c. c \<noteq> BACKTICK) text"

text \<open>
  \<open>\n{3,}\<close>: a maximal run of at least three line feeds, replaced by two. \<open>nl_run\<close> is
  the number of line feeds a string starts with.
\<close>

definition nl_run :: "pystr \<Rightarrow> nat" where
  "nl_run text = length (takeWhile (\<lambda>x. x = NEWLINE) text)"

function collapse_newlines :: "pystr \<Rightarrow> pystr" where
  "collapse_newlines [] = []"
| "collapse_newlines (c # cs) =
     (if 3 \<le> nl_run (c # cs)
      then NEWLINE # NEWLINE # collapse_newlines (dropWhile (\<lambda>x. x = NEWLINE) cs)
      else c # collapse_newlines cs)"
  by pat_completeness auto
termination
proof (relation "measure length")
  show "wf (measure length)" by simp
next
  fix c :: nat and cs :: pystr
  have "length (dropWhile (\<lambda>x. x = NEWLINE) cs) \<le> length cs"
    by (rule length_dropWhile_le)
  then show "(dropWhile (\<lambda>x. x = NEWLINE) cs, c # cs) \<in> measure length"
    by simp
next
  fix c :: nat and cs :: pystr
  show "(cs, c # cs) \<in> measure length" by simp
qed

text \<open>\<open>str.strip()\<close>: the whitespace at both ends is dropped.\<close>

definition strip :: "pystr \<Rightarrow> pystr" where
  "strip text = rev (dropWhile is_space (rev (dropWhile is_space text)))"

definition clean_markdown :: "pystr \<Rightarrow> pystr" where
  "clean_markdown text =
     strip (collapse_newlines (remove_backticks (remove_headings (remove_bold text))))"

section \<open>The text extractor\<close>

text \<open>
  \<^verbatim>\<open>
  def extract_text_from_pdf(pdf_file):
      doc = fitz.open(stream=pdf_file.read(), filetype="pdf")
      text = ""
      for page in doc:
          text += page.get_text()
      return text
  \<close>
  PyMuPDF is not part of the program: \<open>fitz_open\<close> (the parser, which raises on a stream
  that is no PDF, or gives the pages in document order) and \<open>get_text\<close> are parameters.
  The exception of the parser is not caught, so it is the result of the function.
\<close>

fun extract_loop :: "('p \<Rightarrow> pystr) \<Rightarrow> pystr \<Rightarrow> 'p list \<Rightarrow> pystr" where
  "extract_loop get_text text [] = text"
| "extract_loop get_text text (page # doc) = extract_loop get_text (text @ get_text page) doc"

definition extract_text_from_pdf ::
  "('f \<Rightarrow> 'e + 'p list) \<Rightarrow> ('p \<Rightarrow> pystr) \<Rightarrow> 'f \<Rightarrow> 'e + pystr" where
  "extract_text_from_pdf fitz_open get_text pdf_file =
     (case fitz_open pdf_file of
        Inl e \<Rightarrow> Inl e
      | Inr doc \<Rightarrow> Inr (extract_loop get_text [] doc))"

section \<open>The remote generation call\<close>

text \<open>
  \<^verbatim>\<open>
  def call_openai_single(prompt: str, model="gpt-4o-mini", temperature=0.7, max_tokens=1500):
      client = openai.OpenAI(api_key=st.secrets["OPENAI_API_KEY"])
      response = client.chat.completions.create(
          model=model,
          messages=[
              {
                  "role": "system",
                  "content": (
                      "You are an AI chatbot automating script improvements and providing "
                      "data-driven insights (casting, budget, scheduling, marketing) to film producers."
                  ),
              },
              {"role": "user", "content": prompt},
          ],
          temperature=temperature,
          max_tokens=max_tokens,
      )
      return response.choices[0].message.content
  \<close>
  A request is the keyword arguments of \<open>client.chat.completions.create\<close>; a message is
  its role and its content. The temperature is passed on as it is given; the literal
  \<open>0.7\<close> of the source is written \<open>7 / 10\<close>.
\<close>

record request =
  req_model :: pystr
  req_messages :: "(pystr \<times> pystr) list"
  req_temperature :: real
  req_max_tokens :: nat

definition chat_request :: "pystr \<Rightarrow> pystr \<Rightarrow> real \<Rightarrow> nat \<Rightarrow> request" where
  "chat_request prompt model temperature max_tokens =
     \<lparr>req_model = model,
      req_messages =
        [(lit ''system'',
          lit ''You are an AI chatbot automating script improvements and providing ''
            @ lit ''data-driven insights (casting, budget, scheduling, marketing) to film producers.''),
         (lit ''user'', prompt)],
      req_temperature = temperature,
      req_max_tokens = max_tokens\<rparr>"

text \<open>
  The service is outside the program and need not answer the same request twice in the
  same way: \<open>create\<close> takes the state \<open>'w\<close> of the outside world and returns the new one,
  with either the exception raised on the way (by the client, or by the access to the
  first choice) or the text of the first choice. The second component of a session is the
  trace of the calls issued so far, each with its outcome; the program keeps no such
  trace, it is there to state what a run has sent.
\<close>

type_synonym ('w, 'e) session = "'w \<times> (request \<times> ('e + pystr)) list"

definition call_openai_single ::
  "(request \<Rightarrow> 'w \<Rightarrow> ('e + pystr) \<times> 'w) \<Rightarrow> pystr \<Rightarrow> pystr \<Rightarrow> real \<Rightarrow> nat \<Rightarrow>
   ('w, 'e) session \<Rightarrow> ('e + pystr) \<times> ('w, 'e) session" where
  "call_openai_single create prompt model temperature max_tokens s =
     (let rq = chat_request prompt model temperature max_tokens;
          (response, w) = create rq (fst s)
      in (response, (w, snd s @ [(rq, response)])))"

section \<open>The orchestrator\<close>

text \<open>
  The dictionary literal \<open>prompts\<close> of \<open>get_all_analyses_single\<close>, in the order it is
  written (a Python \<open>dict\<close> keeps insertion order, and the nine keys are distinct). Each
  value is an f-string with the screenplay between two \<open>"""\<close>.
\<close>

definition prompts :: "pystr \<Rightarrow> (pystr \<times> pystr) list" where
  \<open>prompts screenplay_text =
    [
     (lit ''Logline'',
      lit ''Write a Hollywood-style logline for my screenplay. It should only contain the logline, making it engaging and high-concept.\<newline>\<newline>Screenplay:\<newline>"""''
        @ screenplay_text @ lit ''"""''),
     (lit ''Genre'',
      lit ''Suggest the genre for the provided screenplay. By genre, we mean a particular type or style of literature, art, film, or music recognizable by its special characteristics.\<newline>\<newline>Screenplay:\<newline>"""''
        @ screenplay_text @ lit ''"""''),
     (lit ''Top Keywords'',
      lit ''Give the top 10 keywords of the attached movie screenplay without any explanation.\<newline>\<newline>Screenplay:\<newline>"""''
        @ screenplay_text @ lit ''"""''),
     (lit ''Location Setting'',
      lit ''Give the location setting of the attached movie screenplay, considering only the primary location.\<newline>\<newline>Screenplay:\<newline>"""''
        @ screenplay_text @ lit ''"""''),
     (lit ''Synopsis'',
      lit ''Give only the synopsis of the attached screenplay.\<newline>\<newline>Screenplay:\<newline>"""''
        @ screenplay_text @ lit ''"""''),
     (lit ''Script Score'',
      lit ''Analyze the attached screenplay and give it a script score out of 10, including:\<newline>- Character development score (out of 10) with 1-2 lines explanation\<newline>- Plot construction (out of 10) with 1-2 lines explanation\<newline>- Dialogue (out of 10) with 1-2 lines explanation\<newline>- Originality (out of 10) with 1-2 lines explanation\<newline>- Emotional engagement (out of 10) with 1-2 lines explanation\<newline>- Theme and message (out of 10) with 1-2 lines explanation\<newline>- Overall rating out of 10 with explanation\<newline>\<newline>Screenplay:\<newline>"""''
        @ screenplay_text @ lit ''"""''),
     (lit ''Plot Assessment'',
      lit ''Analyze the attached screenplay and give the plot assessment and enhancement, including:\<newline>- 5 points of what is working well (positive aspects)\<newline>- 5 points where the screenplay lacks\<newline>- 5 points of improvements that may be made\<newline>- An overall review of the screenplay\<newline>\<newline>Screenplay:\<newline>"""''
        @ screenplay_text @ lit ''"""''),
     (lit ''Character Profiling'',
      lit ''Analyze the attached screenplay and return character profiling for the main characters, including:\<newline>- Brief description of each main character\<newline>- What is working well for each character\<newline>- Areas for improvement\<newline>- The archetype for each\<newline>\<newline>Screenplay:\<newline>"""''
        @ screenplay_text @ lit ''"""''),
     (lit ''Box Office Collection'',
      lit ''Analyze the attached screenplay and give its box office prediction with the following fields:\<newline>- Opening day (global and local)\<newline>- Opening week (global and local)\<newline>- Opening month (global and local)\<newline>\<newline>Screenplay:\<newline>"""''
        @ screenplay_text @ lit ''"""'')
    ]\<close>

text \<open>
  \<^verbatim>\<open>
  results = {}
  for section_name, prompt_text in prompts.items():
      ai_response = call_openai_single(
          prompt_text, model="gpt-4o-mini", temperature=0.7, max_tokens=1200
      )
      results[section_name] = ai_response
  return results
  \<close>
  An exception of the call is not caught: it ends the loop and the function. A dictionary
  is an association list; \<open>AList.update\<close> replaces the value of a key that is there and
  appends a new key at the end, as the assignment to a \<open>dict\<close> item does.
\<close>

fun analyses_loop ::
  "(request \<Rightarrow> 'w \<Rightarrow> ('e + pystr) \<times> 'w) \<Rightarrow> (pystr \<times> pystr) list \<Rightarrow> (pystr \<times> pystr) list \<Rightarrow>
   ('w, 'e) session \<Rightarrow> ('e + (pystr \<times> pystr) list) \<times> ('w, 'e) session" where
  "analyses_loop create results [] s = (Inr results, s)"
| "analyses_loop create results ((section_name, prompt_text) # items) s =
     (case call_openai_single create prompt_text (lit ''gpt-4o-mini'') (7 / 10) 1200 s of
        (Inl e, s') \<Rightarrow> (Inl e, s')
      | (Inr ai_response, s') \<Rightarrow>
          analyses_loop create (AList.update section_name ai_response results) items s')"

definition get_all_analyses_single ::
  "(request \<Rightarrow> 'w \<Rightarrow> ('e + pystr) \<times> 'w) \<Rightarrow> pystr \<Rightarrow>
   ('w, 'e) session \<Rightarrow> ('e + (pystr \<times> pystr) list) \<times> ('w, 'e) session" where
  "get_all_analyses_single create screenplay_text s =
     analyses_loop create [] (prompts screenplay_text) s"

text \<open>The nine category labels, in the fixed order.\<close>

definition categories :: "pystr list" where
  "categories =
     [lit ''Logline'', lit ''Genre'', lit ''Top Keywords'', lit ''Location Setting'',
      lit ''Synopsis'', lit ''Script Score'', lit ''Plot Assessment'',
      lit ''Character Profiling'', lit ''Box Office Collection'']"

text \<open>
  The instruction of each category: the text of its f-string before the screenplay block.
  \<open>screenplay_block\<close> is that block, the screenplay between the two markers.
\<close>

definition instructions :: "(pystr \<times> pystr) list" where
  \<open>instructions =
    [
     (lit ''Logline'',
      lit ''Write a Hollywood-style logline for my screenplay. It should only contain the logline, making it engaging and high-concept.''),
     (lit ''Genre'',
      lit ''Suggest the genre for the provided screenplay. By genre, we mean a particular type or style of literature, art, film, or music recognizable by its special characteristics.''),
     (lit ''Top Keywords'',
      lit ''Give the top 10 keywords of the attached movie screenplay without any explanation.''),
     (lit ''Location Setting'',
      lit ''Give the location setting of the attached movie screenplay, considering only the primary location.''),
     (lit ''Synopsis'',
      lit ''Give only the synopsis of the attached screenplay.''),
     (lit ''Script Score'',
      lit ''Analyze the attached screenplay and give it a script score out of 10, including:\<newline>- Character development score (out of 10) with 1-2 lines explanation\<newline>- Plot construction (out of 10) with 1-2 lines explanation\<newline>- Dialogue (out of 10) with 1-2 lines explanation\<newline>- Originality (out of 10) with 1-2 lines explanation\<newline>- Emotional engagement (out of 10) with 1-2 lines explanation\<newline>- Theme and message (out of 10) with 1-2 lines explanation\<newline>- Overall rating out of 10 with explanation''),
     (lit ''Plot Assessment'',
      lit ''Analyze the attached screenplay and give the plot assessment and enhancement, including:\<newline>- 5 points of what is working well (positive aspects)\<newline>- 5 points where the screenplay lacks\<newline>- 5 points of improvements that may be made\<newline>- An overall review of the screenplay''),
     (lit ''Character Profiling'',
      lit ''Analyze the attached screenplay and return character profiling for the main characters, including:\<newline>- Brief description of each main character\<newline>- What is working well for each character\<newline>- Areas for improvement\<newline>- The archetype for each''),
     (lit ''Box Office Collection'',
      lit ''Analyze the attached screenplay and give its box office prediction with the following fields:\<newline>- Opening day (global and local)\<newline>- Opening week (global and local)\<newline>- Opening month (global and local)'')
    ]\<close>

definition screenplay_block :: "pystr \<Rightarrow> pystr" where
  \<open>screenplay_block body =
     lit ''\<newline>\<newline>Screenplay:\<newline>'' @ lit ''"""'' @ body @ lit ''"""''\<close>

section \<open>The report compiler\<close>

text \<open>
  \<^verbatim>\<open>
  def create_pdf_report(data: dict) -> BytesIO:
      pdf = FPDF()
      pdf.add_page()
      font_regular = "DejaVuSans.ttf"
      font_bold = "DejaVuSans-Bold.ttf"
      if not os.path.isfile(font_regular) or not os.path.isfile(font_bold):
          raise FileNotFoundError("Font files not found. Make sure DejaVu fonts are in the app folder.")
      pdf.add_font("DejaVu", "", font_regular, uni=True)
      pdf.add_font("DejaVu", "B", font_bold, uni=True)
      pdf.set_font("DejaVu", "B", 16)
      pdf.cell(0, 10, "Screenplay Analysis Report", ln=True, align="C")
      pdf.ln(10)
      for section, content in data.items():
          pdf.set_font("DejaVu", "B", 14)
          pdf.cell(0, 10, section, ln=True)
          pdf.ln(2)
          pdf.set_font("DejaVu", "", 12)
          cleaned_content = clean_markdown(content)
          pdf.multi_cell(0, 8, cleaned_content)
          pdf.ln(10)
      buffer = BytesIO()
      pdf.output(buffer)
      buffer.seek(0)
      return buffer
  \<close>
  The PDF library is not part of the program, and neither is the encoding of a document
  into bytes. An \<open>FPDF\<close> object is modelled by the calls made on it, in order: that
  sequence is the document the program builds, and it is what \<open>output\<close> writes to the
  buffer. \<open>isfile\<close> is the file system, as \<open>os.path.isfile\<close> sees it.
\<close>

datatype pdf_op =
    AddPage
  | AddFont pystr pystr pystr bool
  | SetFont pystr pystr nat
  | Cell nat nat pystr bool pystr
  | Ln nat
  | MultiCell nat nat pystr

type_synonym fpdf = "pdf_op list"

record bytes_io =
  written :: fpdf
  position :: nat

datatype exn = FileNotFoundError pystr

fun sections_loop :: "fpdf \<Rightarrow> (pystr \<times> pystr) list \<Rightarrow> fpdf" where
  "sections_loop pdf [] = pdf"
| "sections_loop pdf ((section, content) # items) =
     (let pdf = pdf @ [SetFont (lit ''DejaVu'') (lit ''B'') 14];
          pdf = pdf @ [Cell 0 10 section True (lit [])];
          pdf = pdf @ [Ln 2];
          pdf = pdf @ [SetFont (lit ''DejaVu'') (lit []) 12];
          cleaned_content = clean_markdown content;
          pdf = pdf @ [MultiCell 0 8 cleaned_content];
          pdf = pdf @ [Ln 10]
      in sections_loop pdf items)"

text \<open>
  The result is the exception or the buffer, together with the \<open>FPDF\<close> object as it is
  when the function is left.
\<close>

definition create_pdf_report ::
  "(pystr \<Rightarrow> bool) \<Rightarrow> (pystr \<times> pystr) list \<Rightarrow> (exn + bytes_io) \<times> fpdf" where
  "create_pdf_report isfile data =
     (let pdf = [];
          pdf = pdf @ [AddPage];
          font_regular = lit ''DejaVuSans.ttf'';
          font_bold = lit ''DejaVuSans-Bold.ttf''
      in if \<not> isfile font_regular \<or> \<not> isfile font_bold
         then (Inl (FileNotFoundError
                 (lit ''Font files not found. Make sure DejaVu fonts are in the app folder.'')),
               pdf)
         else
           let pdf = pdf @ [AddFont (lit ''DejaVu'') (lit []) font_regular True];
               pdf = pdf @ [AddFont (lit ''DejaVu'') (lit ''B'') font_bold True];
               pdf = pdf @ [SetFont (lit ''DejaVu'') (lit ''B'') 16];
               pdf = pdf @ [Cell 0 10 (lit ''Screenplay Analysis Report'') True (lit ''C'')];
               pdf = pdf @ [Ln 10];
               pdf = sections_loop pdf data;
               buffer = \<lparr>written = [], position = 0\<rparr>;
               buffer = buffer\<lparr>written := written buffer @ pdf,
                               position := position buffer + length pdf\<rparr>;
               buffer = buffer\<lparr>position := 0\<rparr>
           in (Inr buffer, pdf))"

text \<open>The texts of the single-line cells of a document (its title and headings), in order.\<close>

fun cell_texts :: "fpdf \<Rightarrow> pystr list" where
  "cell_texts [] = []"
| "cell_texts (Cell _ _ txt _ _ # ops) = txt # cell_texts ops"
| "cell_texts (_ # ops) = cell_texts ops"

section \<open>Environments for the examples\<close>

text \<open>A folder with both fonts, and one where the bold font is missing.\<close>

definition both_fonts :: "pystr \<Rightarrow> bool" where
  "both_fonts path \<longleftrightarrow> path = lit ''DejaVuSans.ttf'' \<or> path = lit ''DejaVuSans-Bold.ttf''"

definition regular_font_only :: "pystr \<Rightarrow> bool" where
  "regular_font_only path \<longleftrightarrow> path = lit ''DejaVuSans.ttf''"

text \<open>
  A service that counts its calls and answers each with the same text, and one whose
  second call fails.
\<close>

definition steady_service :: "request \<Rightarrow> nat \<Rightarrow> (pystr + pystr) \<times> nat" where
  "steady_service rq n = (Inr (lit ''**ok**''), Suc n)"

definition second_call_fails :: "request \<Rightarrow> nat \<Rightarrow> (pystr + pystr) \<times> nat" where
  "second_call_fails rq n =
     (if n = 1 then Inl (lit ''connection error'') else Inr (lit ''**ok**''), Suc n)"

text \<open>A parser for documents given as the list of their page texts.\<close>

definition pages_of :: "pystr list \<Rightarrow> pystr + pystr list" where
  "pages_of pdf_file = Inr pdf_file"

definition page_text :: "pystr \<Rightarrow> pystr" where
  "page_text page = page"

section \<open>Properties of the markdown cleaner\<close>

lemma remove_headings_no_hash: "HASH \<notin> set (remove_headings s)"
  by (induction s rule: remove_headings.induct) auto

lemma remove_headings_id: "HASH \<notin> set s \<Longrightarrow> remove_headings s = s"
  by (induction s) auto

lemma length_remove_headings: "length (remove_headings s) \<le> length s"
proof (induction s rule: remove_headings.induct)
  case 1
  show ?case by simp
next
  case (2 c cs)
  have "length (dropWhile is_space (dropWhile (\<lambda>x. x = HASH) cs)) \<le> length cs"
    by (rule order_trans [OF length_dropWhile_le length_dropWhile_le])
  with 2 show ?case by auto
qed

lemma set_remove_backticks: "set (remove_backticks s) = set s - {BACKTICK}"
  by (auto simp: remove_backticks_def)

lemma remove_backticks_id: "BACKTICK \<notin> set s \<Longrightarrow> remove_backticks s = s"
  by (induction s) (auto simp: remove_backticks_def)

lemma length_remove_backticks: "length (remove_backticks s) \<le> length s"
  by (simp add: remove_backticks_def)

lemma nl_run_Nil: "nl_run [] = 0"
  by (simp add: nl_run_def)

lemma nl_run_Cons: "nl_run (c # cs) = (if c = NEWLINE then Suc (nl_run cs) else 0)"
  by (simp add: nl_run_def)

lemma sublist_triple_Cons:
  "sublist [NEWLINE, NEWLINE, NEWLINE] (c # cs) \<longleftrightarrow>
     3 \<le> nl_run (c # cs) \<or> sublist [NEWLINE, NEWLINE, NEWLINE] cs"
proof -
  have "prefix [NEWLINE, NEWLINE, NEWLINE] (c # cs) \<longleftrightarrow> 3 \<le> nl_run (c # cs)"
  proof (cases cs)
    case Nil
    then show ?thesis by (simp add: nl_run_def)
  next
    case (Cons b s2)
    then show ?thesis by (cases s2) (auto simp: nl_run_def)
  qed
  then show ?thesis by (simp only: sublist_Cons_right)
qed

lemma set_collapse_newlines: "set (collapse_newlines s) \<subseteq> set s"
proof (induction s rule: collapse_newlines.induct)
  case 1
  show ?case by simp
next
  case (2 c cs)
  show ?case
  proof (cases "3 \<le> nl_run (c # cs)")
    case True
    then have c: "c = NEWLINE"
      by (auto simp: nl_run_def split: if_splits)
    have "set (dropWhile (\<lambda>x. x = NEWLINE) cs) \<subseteq> set cs"
      by (auto dest: set_dropWhileD)
    with 2(1) [OF True] True c show ?thesis by auto
  next
    case False
    with 2(2) show ?thesis by auto
  qed
qed

lemma length_collapse_newlines: "length (collapse_newlines s) \<le> length s"
proof (induction s rule: collapse_newlines.induct)
  case 1
  show ?case by simp
next
  case (2 c cs)
  show ?case
  proof (cases "3 \<le> nl_run (c # cs)")
    case True
    then have "3 \<le> Suc (length (takeWhile (\<lambda>x. x = NEWLINE) cs))"
      by (auto simp: nl_run_def split: if_splits)
    moreover have "length (takeWhile (\<lambda>x. x = NEWLINE) cs) + length (dropWhile (\<lambda>x. x = NEWLINE) cs) = length cs"
      by (metis length_append takeWhile_dropWhile_id)
    ultimately show ?thesis using 2(1) [OF True] True by simp
  next
    case False
    with 2(2) show ?thesis by auto
  qed
qed

lemma nl_run_dropWhile: "nl_run (dropWhile (\<lambda>x. x = NEWLINE) cs) = 0"
  by (induction cs) (auto simp: nl_run_def)

lemma nl_run_collapse_newlines:
  "nl_run (collapse_newlines s) = (if 3 \<le> nl_run s then 2 else nl_run s)"
proof (induction s rule: collapse_newlines.induct)
  case 1
  show ?case by (simp add: nl_run_def)
next
  case (2 c cs)
  show ?case
  proof (cases "3 \<le> nl_run (c # cs)")
    case True
    have "nl_run (collapse_newlines (dropWhile (\<lambda>x. x = NEWLINE) cs)) = 0"
      using 2(1) [OF True] by (simp add: nl_run_dropWhile)
    with True show ?thesis by (simp add: nl_run_def)
  next
    case False
    with 2(2) show ?thesis by (auto simp: nl_run_def split: if_splits)
  qed
qed

lemma collapse_newlines_no_triple:
  "\<not> sublist [NEWLINE, NEWLINE, NEWLINE] (collapse_newlines s)"
proof (induction s rule: collapse_newlines.induct)
  case 1
  show ?case by simp
next
  case (2 c cs)
  show ?case
  proof (cases "3 \<le> nl_run (c # cs)")
    case True
    let ?r = "collapse_newlines (dropWhile (\<lambda>x. x = NEWLINE) cs)"
    have r0: "nl_run ?r = 0"
      by (simp add: nl_run_collapse_newlines nl_run_dropWhile)
    have "sublist [NEWLINE, NEWLINE, NEWLINE] (NEWLINE # NEWLINE # ?r) \<longleftrightarrow>
          sublist [NEWLINE, NEWLINE, NEWLINE] ?r"
      using r0 by (simp add: sublist_triple_Cons nl_run_Cons)
    then show ?thesis
      using 2(1) [OF True] True by simp
  next
    case False
    have "\<not> 3 \<le> nl_run (c # collapse_newlines cs)"
      using False by (simp add: nl_run_Cons nl_run_collapse_newlines split: if_splits)
    then show ?thesis
      using 2(2) [OF False] False by (simp add: sublist_triple_Cons)
  qed
qed

lemma collapse_newlines_id:
  "\<not> sublist [NEWLINE, NEWLINE, NEWLINE] s \<Longrightarrow> collapse_newlines s = s"
proof (induction s)
  case Nil
  show ?case by simp
next
  case (Cons c cs)
  from Cons.prems have "\<not> 3 \<le> nl_run (c # cs)" and "\<not> sublist [NEWLINE, NEWLINE, NEWLINE] cs"
    by (simp_all add: sublist_triple_Cons)
  with Cons.IH show ?case by simp
qed

lemma sublist_strip: "sublist (strip s) s"
proof -
  have "prefix (strip s) (dropWhile is_space s)"
    unfolding strip_def
    by (metis rev_rev_ident suffix_dropWhile suffix_to_prefix)
  moreover have "suffix (dropWhile is_space s) s"
    by (rule suffix_dropWhile)
  ultimately show ?thesis
    by (meson prefix_imp_sublist suffix_imp_sublist sublist_order.order_trans)
qed

lemma length_strip: "length (strip s) \<le> length s"
  using sublist_strip [of s] by (rule sublist_length_le)

lemma dropWhile_fixed: "xs = [] \<or> \<not> P (hd xs) \<Longrightarrow> dropWhile P xs = xs"
  by (cases xs) auto

lemma strip_no_leading_space: "dropWhile is_space (strip s) = strip s"
proof (cases "strip s = []")
  case True
  then show ?thesis by simp
next
  case False
  let ?u = "dropWhile is_space s"
  have p: "prefix (strip s) ?u"
    unfolding strip_def
    by (metis rev_rev_ident suffix_dropWhile suffix_to_prefix)
  with False have "?u \<noteq> []" by (metis prefix_Nil)
  then have "\<not> is_space (hd ?u)" by (rule hd_dropWhile)
  moreover from p False have "hd (strip s) = hd ?u"
    by (auto simp: prefix_def)
  ultimately show ?thesis using False by (simp add: dropWhile_fixed)
qed

lemma strip_strip: "strip (strip s) = strip s"
proof -
  have "strip (strip s) = rev (dropWhile is_space (rev (strip s)))"
    by (simp add: strip_def [of "strip s"] strip_no_leading_space)
  also have "rev (strip s) = dropWhile is_space (rev (dropWhile is_space s))"
    by (simp add: strip_def)
  also have "rev (dropWhile is_space (dropWhile is_space (rev (dropWhile is_space s)))) = strip s"
    by (simp add: strip_def dropWhile_idem)
  finally show ?thesis .
qed

lemma sublist_pair_Cons:
  "sublist [x, x] (a # b # cs) \<longleftrightarrow> (a = x \<and> b = x) \<or> sublist [x, x] (b # cs)"
  by (auto simp: sublist_Cons_right [of _ a])

lemma length_remove_bold: "length (remove_bold s) \<le> length s"
  by (induction s rule: remove_bold.induct) auto

lemma remove_bold_shorter:
  "sublist [ASTERISK, ASTERISK] s \<or> sublist [UNDERSCORE, UNDERSCORE] s \<Longrightarrow>
   length (remove_bold s) < length s"
proof (induction s rule: remove_bold.induct)
  case (1 a b cs)
  show ?case
  proof (cases "(a = ASTERISK \<and> b = ASTERISK) \<or> (a = UNDERSCORE \<and> b = UNDERSCORE)")
    case True
    then show ?thesis
      using length_remove_bold [of cs] by auto
  next
    case False
    with "1.prems" have "sublist [ASTERISK, ASTERISK] (b # cs) \<or> sublist [UNDERSCORE, UNDERSCORE] (b # cs)"
      by (auto simp: sublist_pair_Cons)
    with "1.IH"(2) False show ?thesis by auto
  qed
qed (simp_all add: sublist_Cons_right)

lemma remove_bold_id:
  "\<not> sublist [ASTERISK, ASTERISK] s \<Longrightarrow> \<not> sublist [UNDERSCORE, UNDERSCORE] s \<Longrightarrow>
   remove_bold s = s"
proof (induction s rule: remove_bold.induct)
  case (1 a b cs)
  from "1.prems" have no: "\<not> ((a = ASTERISK \<and> b = ASTERISK) \<or> (a = UNDERSCORE \<and> b = UNDERSCORE))"
    and rest: "\<not> sublist [ASTERISK, ASTERISK] (b # cs)" "\<not> sublist [UNDERSCORE, UNDERSCORE] (b # cs)"
    by (auto simp: sublist_pair_Cons)
  from "1.IH"(2) [OF no rest] no show ?case by auto
qed simp_all

lemma clean_markdown_no_hash: "HASH \<notin> set (clean_markdown s)"
proof -
  have "set (clean_markdown s) \<subseteq> set (remove_headings (remove_bold s))"
    unfolding clean_markdown_def
    using set_mono_sublist [OF sublist_strip] set_collapse_newlines set_remove_backticks
    by blast
  then show ?thesis using remove_headings_no_hash by blast
qed

lemma clean_markdown_no_backtick: "BACKTICK \<notin> set (clean_markdown s)"
proof -
  have "set (clean_markdown s) \<subseteq> set (remove_backticks (remove_headings (remove_bold s)))"
    unfolding clean_markdown_def
    using set_mono_sublist [OF sublist_strip] set_collapse_newlines
    by blast
  then show ?thesis by (auto simp: set_remove_backticks)
qed

lemma clean_markdown_no_triple:
  "\<not> sublist [NEWLINE, NEWLINE, NEWLINE] (clean_markdown s)"
proof
  assume "sublist [NEWLINE, NEWLINE, NEWLINE] (clean_markdown s)"
  then have "sublist [NEWLINE, NEWLINE, NEWLINE]
      (collapse_newlines (remove_backticks (remove_headings (remove_bold s))))"
    unfolding clean_markdown_def
    by (rule sublist_order.order_trans [OF _ sublist_strip])
  then show False by (simp add: collapse_newlines_no_triple)
qed

lemma clean_markdown_stripped: "strip (clean_markdown s) = clean_markdown s"
  by (simp add: clean_markdown_def strip_strip)

lemma length_clean_markdown: "length (clean_markdown s) \<le> length (remove_bold s)"
  unfolding clean_markdown_def
  by (meson length_strip length_collapse_newlines length_remove_backticks
      length_remove_headings order_trans)

text \<open>
  Claim C1, as amended. One more pass over a cleaned string changes it exactly when the
  cleaned string still holds a bold marker: \<open>clean_markdown (clean_markdown s)\<close> equals
  \<open>clean_markdown s\<close> if and only if \<open>clean_markdown s\<close> contains neither \<open>**\<close> nor \<open>__\<close>.
  A cleaned string never holds a \<open>#\<close>, a backtick, three line feeds in a row or whitespace
  at its ends, so the other four steps leave it as it is.
\<close>

theorem clean_markdown_idempotent_iff:
  "clean_markdown (clean_markdown s) = clean_markdown s \<longleftrightarrow>
   \<not> sublist (lit ''**'') (clean_markdown s) \<and> \<not> sublist (lit ''__'') (clean_markdown s)"
proof -
  let ?t = "clean_markdown s"
  have lits: "lit ''**'' = [ASTERISK, ASTERISK]" "lit ''__'' = [UNDERSCORE, UNDERSCORE]"
    by (simp_all add: lit_def)
  show ?thesis
  proof (cases "sublist [ASTERISK, ASTERISK] ?t \<or> sublist [UNDERSCORE, UNDERSCORE] ?t")
    case True
    then have "length (remove_bold ?t) < length ?t"
      by (rule remove_bold_shorter)
    with length_clean_markdown [of ?t] have "length (clean_markdown ?t) < length ?t"
      by simp
    then have "clean_markdown ?t \<noteq> ?t" by auto
    with True show ?thesis by (auto simp: lits)
  next
    case False
    then have "remove_bold ?t = ?t"
      by (simp add: remove_bold_id)
    moreover have "remove_headings ?t = ?t"
      by (rule remove_headings_id [OF clean_markdown_no_hash])
    moreover have "remove_backticks ?t = ?t"
      by (rule remove_backticks_id [OF clean_markdown_no_backtick])
    moreover have "collapse_newlines ?t = ?t"
      by (rule collapse_newlines_id [OF clean_markdown_no_triple])
    moreover have "strip ?t = ?t"
      by (rule clean_markdown_stripped)
    ultimately have "clean_markdown ?t = ?t"
      by (simp add: clean_markdown_def [of ?t])
    with False show ?thesis by (simp add: lits)
  qed
qed

theorem clean_markdown_idempotent_iff_witness:
  "\<not> sublist (lit ''**'') (clean_markdown (lit ''## **Hi** `x`''))
   \<and> \<not> sublist (lit ''__'') (clean_markdown (lit ''## **Hi** `x`''))
   \<and> clean_markdown (clean_markdown (lit ''## **Hi** `x`'')) = clean_markdown (lit ''## **Hi** `x`'')"
proof -
  have c: "clean_markdown (lit ''## **Hi** `x`'') = lit ''Hi x''"
    by (simp add: clean_markdown_def lit_def strip_def remove_backticks_def nl_run_def is_space_def)
  have n: "\<not> sublist (lit ''**'') (lit ''Hi x'')" "\<not> sublist (lit ''__'') (lit ''Hi x'')"
    by (simp_all add: lit_def sublist_Cons_right)
  show ?thesis
    using clean_markdown_idempotent_iff [of "lit ''## **Hi** `x`''"] n
    by (simp only: c simp_thms)
qed

text \<open>
  Claim C1, as stated, fails: the markers are removed first, and removing a backtick (or a
  heading marker) afterwards can bring two asterisks together. \<open>*`*\<close> is cleaned to
  \<open>**\<close>, and \<open>**\<close> is cleaned to the empty string.
\<close>

theorem clean_markdown_idempotent_counterexample:
  "clean_markdown (lit ''*`*'') = lit ''**''
   \<and> clean_markdown (lit ''**'') = []
   \<and> clean_markdown (clean_markdown (lit ''*`*'')) \<noteq> clean_markdown (lit ''*`*'')"
  by (simp add: clean_markdown_def lit_def strip_def remove_backticks_def nl_run_def is_space_def)

text \<open>
  Claim C5. The output of \<open>clean_markdown\<close> never contains four or more line feeds in a
  row: no run of \<open>n \<ge> 4\<close> line feeds is a contiguous part of it.
\<close>

theorem clean_markdown_newline_runs:
  "4 \<le> n \<Longrightarrow> \<not> sublist (replicate n NEWLINE) (clean_markdown s)"
proof
  assume n: "4 \<le> n" and sub: "sublist (replicate n NEWLINE) (clean_markdown s)"
  from n have "replicate n NEWLINE = [NEWLINE, NEWLINE, NEWLINE] @ replicate (n - 3) NEWLINE"
    by (simp add: numeral_3_eq_3 flip: replicate_add replicate_Suc)
  then have "sublist [NEWLINE, NEWLINE, NEWLINE] (replicate n NEWLINE)"
    by (metis prefix_imp_sublist prefixI)
  from this sub have "sublist [NEWLINE, NEWLINE, NEWLINE] (clean_markdown s)"
    by (rule sublist_order.order_trans)
  then show False by (simp add: clean_markdown_no_triple)
qed

theorem clean_markdown_newline_runs_witness:
  "(4::nat) \<le> 5 \<and> \<not> sublist (replicate 5 NEWLINE)
      (clean_markdown (lit ''a\<newline>\<newline>\<newline>\<newline>\<newline>\<newline>b''))
   \<and> clean_markdown (lit ''a\<newline>\<newline>\<newline>\<newline>\<newline>\<newline>b'') = lit ''a\<newline>\<newline>b''"
proof -
  have h: "(4::nat) \<le> 5" by simp
  have c: "clean_markdown (lit ''a\<newline>\<newline>\<newline>\<newline>\<newline>\<newline>b'') = lit ''a\<newline>\<newline>b''"
    by (simp add: clean_markdown_def lit_def strip_def remove_backticks_def nl_run_def is_space_def)
  show ?thesis
    using h c clean_markdown_newline_runs [OF h, of "lit ''a\<newline>\<newline>\<newline>\<newline>\<newline>\<newline>b''"]
    by simp
qed

section \<open>Properties of the text extractor\<close>

lemma extract_loop_concat:
  "extract_loop get_text acc doc = acc @ concat (map get_text doc)"
  by (induction doc arbitrary: acc) simp_all

text \<open>
  Claim C3. For a document the parser accepts, \<open>extract_text_from_pdf\<close> returns the
  texts of its pages concatenated in page order; for a document of one page that is the
  text of the page.
\<close>

theorem extract_text_is_page_concatenation:
  "fitz_open pdf_file = Inr doc \<Longrightarrow>
   extract_text_from_pdf fitz_open get_text pdf_file = Inr (concat (map get_text doc))
   \<and> (\<forall>page. doc = [page] \<longrightarrow>
        extract_text_from_pdf fitz_open get_text pdf_file = Inr (get_text page))"
  by (simp add: extract_text_from_pdf_def extract_loop_concat)

theorem extract_text_is_page_concatenation_witness:
  "pages_of [lit ''INT. '', lit ''HOUSE'', lit '' - DAY''] = Inr [lit ''INT. '', lit ''HOUSE'', lit '' - DAY'']
   \<and> extract_text_from_pdf pages_of page_text [lit ''INT. '', lit ''HOUSE'', lit '' - DAY'']
       = Inr (lit ''INT. HOUSE - DAY'')
   \<and> extract_text_from_pdf pages_of page_text [lit ''FADE IN''] = Inr (lit ''FADE IN'')"
proof -
  have h3: "pages_of [lit ''INT. '', lit ''HOUSE'', lit '' - DAY''] = Inr [lit ''INT. '', lit ''HOUSE'', lit '' - DAY'']"
    by (simp add: pages_of_def)
  have h1: "pages_of [lit ''FADE IN''] = Inr [lit ''FADE IN'']"
    by (simp add: pages_of_def)
  show ?thesis
    using h3 h1
      extract_text_is_page_concatenation
        [of pages_of "[lit ''INT. '', lit ''HOUSE'', lit '' - DAY'']"
            "[lit ''INT. '', lit ''HOUSE'', lit '' - DAY'']" page_text]
      extract_text_is_page_concatenation
        [of pages_of "[lit ''FADE IN'']" "[lit ''FADE IN'']" page_text]
    by (simp add: page_text_def lit_def)
qed

text \<open>
  Claim C9. For a document the parser accepts and that has no page, the loop body never
  runs and \<open>extract_text_from_pdf\<close> returns the empty string.
\<close>

theorem extract_text_no_pages:
  "fitz_open pdf_file = Inr [] \<Longrightarrow> extract_text_from_pdf fitz_open get_text pdf_file = Inr []"
  by (simp add: extract_text_from_pdf_def)

theorem extract_text_no_pages_witness:
  "pages_of [] = Inr [] \<and> extract_text_from_pdf pages_of page_text [] = Inr []"
proof -
  have h: "pages_of [] = Inr []"
    by (simp add: pages_of_def)
  show ?thesis
    using h extract_text_no_pages [of pages_of "[]" page_text] by simp
qed

section \<open>Properties of the report compiler\<close>

lemma cell_texts_append: "cell_texts (xs @ ys) = cell_texts xs @ cell_texts ys"
  by (induction xs rule: cell_texts.induct) simp_all

lemma cell_texts_sections_loop:
  "cell_texts (sections_loop pdf items) = cell_texts pdf @ map fst items"
proof (induction items arbitrary: pdf)
  case Nil
  show ?case by simp
next
  case (Cons item items)
  obtain name body where item: "item = (name, body)"
    by (cases item)
  show ?case
    by (simp add: item Cons.IH cell_texts_append)
qed

lemma sections_loop_extends: "\<exists>ops. sections_loop pdf items = pdf @ ops"
proof (induction items arbitrary: pdf)
  case Nil
  show ?case by simp
next
  case (Cons item items)
  obtain name body where item: "item = (name, body)"
    by (cases item)
  let ?pdf = "pdf @ [SetFont (lit ''DejaVu'') (lit ''B'') 14, Cell 0 10 name True (lit []),
      Ln 2, SetFont (lit ''DejaVu'') (lit []) 12, MultiCell 0 8 (clean_markdown body), Ln 10]"
  from Cons.IH [of ?pdf] obtain ops where "sections_loop ?pdf items = ?pdf @ ops" ..
  then show ?case
    by (simp add: item)
qed

lemma create_pdf_report_with_fonts:
  assumes "isfile (lit ''DejaVuSans.ttf'')" and "isfile (lit ''DejaVuSans-Bold.ttf'')"
  shows "\<exists>pdf. create_pdf_report isfile data = (Inr \<lparr>written = pdf, position = 0\<rparr>, pdf)
           \<and> pdf \<noteq> []
           \<and> cell_texts pdf = lit ''Screenplay Analysis Report'' # map fst data"
proof -
  let ?head = "[AddPage,
      AddFont (lit ''DejaVu'') (lit []) (lit ''DejaVuSans.ttf'') True,
      AddFont (lit ''DejaVu'') (lit ''B'') (lit ''DejaVuSans-Bold.ttf'') True,
      SetFont (lit ''DejaVu'') (lit ''B'') 16,
      Cell 0 10 (lit ''Screenplay Analysis Report'') True (lit ''C''),
      Ln 10]"
  let ?pdf = "sections_loop ?head data"
  have "create_pdf_report isfile data = (Inr \<lparr>written = ?pdf, position = 0\<rparr>, ?pdf)"
    using assms by (simp add: create_pdf_report_def Let_def)
  moreover have "?pdf \<noteq> []"
    using sections_loop_extends [of ?head data] by auto
  moreover have "cell_texts ?pdf = lit ''Screenplay Analysis Report'' # map fst data"
    by (simp add: cell_texts_sections_loop)
  ultimately show ?thesis by blast
qed

text \<open>
  Claim C6. With both font files in place and a mapping whose keys are the nine category
  labels in the fixed order, \<open>create_pdf_report\<close> returns a buffer, rewound to its start,
  whose document is not empty and whose single-line cells are the title and then the nine
  labels in the fixed order.
\<close>

theorem create_pdf_report_complete:
  assumes "isfile (lit ''DejaVuSans.ttf'')" and "isfile (lit ''DejaVuSans-Bold.ttf'')"
    and "map fst data = categories"
  shows "\<exists>buffer pdf. create_pdf_report isfile data = (Inr buffer, pdf)
           \<and> written buffer \<noteq> [] \<and> position buffer = 0
           \<and> cell_texts (written buffer) = lit ''Screenplay Analysis Report'' # categories"
  using create_pdf_report_with_fonts [OF assms(1,2), of data] assms(3) by auto

theorem create_pdf_report_complete_witness:
  "both_fonts (lit ''DejaVuSans.ttf'') \<and> both_fonts (lit ''DejaVuSans-Bold.ttf'')
   \<and> map fst (zip categories (replicate 9 (lit ''**ok**''))) = categories
   \<and> (\<exists>buffer pdf.
         create_pdf_report both_fonts (zip categories (replicate 9 (lit ''**ok**''))) = (Inr buffer, pdf)
         \<and> written buffer \<noteq> [] \<and> position buffer = 0
         \<and> cell_texts (written buffer) = lit ''Screenplay Analysis Report'' # categories)"
proof -
  have h1: "both_fonts (lit ''DejaVuSans.ttf'')" and h2: "both_fonts (lit ''DejaVuSans-Bold.ttf'')"
    by (simp_all add: both_fonts_def)
  have h3: "map fst (zip categories (replicate 9 (lit ''**ok**''))) = categories"
    by (simp add: categories_def eval_nat_numeral)
  from create_pdf_report_complete [OF h1 h2 h3] h1 h2 h3 show ?thesis
    by blast
qed

text \<open>
  Claim C2, as amended. \<open>create_pdf_report\<close> never looks for a key: with both font files
  in place, a mapping that lacks a category is compiled without an error, into a document
  with the title and one heading for each key that is there, in the order of the mapping;
  the category that is missing has no heading.
\<close>

theorem create_pdf_report_missing_key:
  assumes "isfile (lit ''DejaVuSans.ttf'')" and "isfile (lit ''DejaVuSans-Bold.ttf'')"
    and "c \<in> set categories" and "c \<notin> fst ` set data"
  shows "\<exists>buffer pdf. create_pdf_report isfile data = (Inr buffer, pdf)
           \<and> cell_texts (written buffer) = lit ''Screenplay Analysis Report'' # map fst data
           \<and> c \<notin> set (cell_texts (written buffer))"
proof -
  from assms(3) have "c \<noteq> lit ''Screenplay Analysis Report''"
    by (auto simp: categories_def lit_def)
  with assms(4) create_pdf_report_with_fonts [OF assms(1,2), of data] show ?thesis
    by auto
qed

theorem create_pdf_report_missing_key_witness:
  "both_fonts (lit ''DejaVuSans.ttf'') \<and> both_fonts (lit ''DejaVuSans-Bold.ttf'')
   \<and> lit ''Genre'' \<in> set categories
   \<and> lit ''Genre'' \<notin> fst ` set [(lit ''Logline'', lit ''A story.'')]
   \<and> (\<exists>buffer pdf.
         create_pdf_report both_fonts [(lit ''Logline'', lit ''A story.'')] = (Inr buffer, pdf)
         \<and> cell_texts (written buffer) = [lit ''Screenplay Analysis Report'', lit ''Logline'']
         \<and> lit ''Genre'' \<notin> set (cell_texts (written buffer)))"
proof -
  have h1: "both_fonts (lit ''DejaVuSans.ttf'')" and h2: "both_fonts (lit ''DejaVuSans-Bold.ttf'')"
    by (simp_all add: both_fonts_def)
  have h3: "lit ''Genre'' \<in> set categories"
    by (simp add: categories_def)
  have h4: "lit ''Genre'' \<notin> fst ` set [(lit ''Logline'', lit ''A story.'')]"
    by (simp add: lit_def)
  from create_pdf_report_missing_key [OF h1 h2 h3 h4] h1 h2 h3 h4 show ?thesis
    by simp
qed

text \<open>
  Claim C2, as stated, fails: a mapping with the key \<open>Logline\<close> alone is compiled into a
  report of one section.
\<close>

theorem create_pdf_report_missing_key_counterexample:
  "lit ''Genre'' \<in> set categories
   \<and> lit ''Genre'' \<notin> fst ` set [(lit ''Logline'', lit ''A story.'')]
   \<and> create_pdf_report both_fonts [(lit ''Logline'', lit ''A story.'')] =
       (Inr \<lparr>written =
              [AddPage,
               AddFont (lit ''DejaVu'') (lit []) (lit ''DejaVuSans.ttf'') True,
               AddFont (lit ''DejaVu'') (lit ''B'') (lit ''DejaVuSans-Bold.ttf'') True,
               SetFont (lit ''DejaVu'') (lit ''B'') 16,
               Cell 0 10 (lit ''Screenplay Analysis Report'') True (lit ''C''),
               Ln 10,
               SetFont (lit ''DejaVu'') (lit ''B'') 14,
               Cell 0 10 (lit ''Logline'') True (lit []),
               Ln 2,
               SetFont (lit ''DejaVu'') (lit []) 12,
               MultiCell 0 8 (lit ''A story.''),
               Ln 10],
            position = 0\<rparr>,
        [AddPage,
         AddFont (lit ''DejaVu'') (lit []) (lit ''DejaVuSans.ttf'') True,
         AddFont (lit ''DejaVu'') (lit ''B'') (lit ''DejaVuSans-Bold.ttf'') True,
         SetFont (lit ''DejaVu'') (lit ''B'') 16,
         Cell 0 10 (lit ''Screenplay Analysis Report'') True (lit ''C''),
         Ln 10,
         SetFont (lit ''DejaVu'') (lit ''B'') 14,
         Cell 0 10 (lit ''Logline'') True (lit []),
         Ln 2,
         SetFont (lit ''DejaVu'') (lit []) 12,
         MultiCell 0 8 (lit ''A story.''),
         Ln 10])"
proof -
  have c: "clean_markdown (lit ''A story.'') = lit ''A story.''"
    by (simp add: clean_markdown_def lit_def strip_def remove_backticks_def nl_run_def is_space_def)
  have g: "lit ''Genre'' \<in> set categories"
    by (simp add: categories_def)
  have n: "lit ''Genre'' \<notin> fst ` set [(lit ''Logline'', lit ''A story.'')]"
    by (simp add: lit_def)
  have "both_fonts (lit ''DejaVuSans.ttf'')" and "both_fonts (lit ''DejaVuSans-Bold.ttf'')"
    by (simp_all add: both_fonts_def)
  then show ?thesis
    using g n by (simp add: create_pdf_report_def Let_def c)
qed

text \<open>
  Claim C7. If one of the two font files is not there, \<open>create_pdf_report\<close> raises
  \<open>FileNotFoundError\<close> and returns no buffer.
\<close>

theorem create_pdf_report_fonts_missing:
  "\<not> isfile (lit ''DejaVuSans.ttf'') \<or> \<not> isfile (lit ''DejaVuSans-Bold.ttf'') \<Longrightarrow>
   fst (create_pdf_report isfile data) =
     Inl (FileNotFoundError
       (lit ''Font files not found. Make sure DejaVu fonts are in the app folder.''))"
  by (auto simp: create_pdf_report_def Let_def)

theorem create_pdf_report_fonts_missing_witness:
  "\<not> regular_font_only (lit ''DejaVuSans-Bold.ttf'')
   \<and> fst (create_pdf_report regular_font_only [(lit ''Logline'', lit ''A story.'')]) =
       Inl (FileNotFoundError
         (lit ''Font files not found. Make sure DejaVu fonts are in the app folder.''))"
proof -
  have h: "\<not> regular_font_only (lit ''DejaVuSans-Bold.ttf'')"
    by (simp add: regular_font_only_def lit_def)
  then have "\<not> regular_font_only (lit ''DejaVuSans.ttf'')
      \<or> \<not> regular_font_only (lit ''DejaVuSans-Bold.ttf'')" ..
  from create_pdf_report_fonts_missing [OF this] h show ?thesis
    by simp
qed

text \<open>
  Claim C10. The font files are checked before a font is registered and before a cell is
  written: when the check fails, the only call made on the \<open>FPDF\<close> object is \<open>add_page\<close>,
  and the function is left with the exception, before a buffer exists.
\<close>

theorem create_pdf_report_check_first:
  "\<not> isfile (lit ''DejaVuSans.ttf'') \<or> \<not> isfile (lit ''DejaVuSans-Bold.ttf'') \<Longrightarrow>
   isl (fst (create_pdf_report isfile data)) \<and> snd (create_pdf_report isfile data) = [AddPage]"
  by (auto simp: create_pdf_report_def Let_def)

theorem create_pdf_report_check_first_witness:
  "\<not> regular_font_only (lit ''DejaVuSans-Bold.ttf'')
   \<and> isl (fst (create_pdf_report regular_font_only [(lit ''Logline'', lit ''A story.'')]))
   \<and> snd (create_pdf_report regular_font_only [(lit ''Logline'', lit ''A story.'')]) = [AddPage]"
proof -
  have h: "\<not> regular_font_only (lit ''DejaVuSans-Bold.ttf'')"
    by (simp add: regular_font_only_def lit_def)
  then have "\<not> regular_font_only (lit ''DejaVuSans.ttf'')
      \<or> \<not> regular_font_only (lit ''DejaVuSans-Bold.ttf'')" ..
  from create_pdf_report_check_first [OF this] h show ?thesis
    by simp
qed

section \<open>Properties of the orchestrator\<close>

lemma call_openai_single_trace:
  "call_openai_single create prompt model temperature max_tokens (w, calls) = (response, (w', calls')) \<Longrightarrow>
   calls' = calls @ [(chat_request prompt model temperature max_tokens, response)]"
  by (auto simp: call_openai_single_def Let_def split: prod.splits)

lemma analyses_loop_trace:
  "analyses_loop create results items (w, calls) = (res, (w', calls')) \<Longrightarrow>
   \<exists>new. calls' = calls @ new
     \<and> map fst new =
         map (\<lambda>item. chat_request (snd item) (lit ''gpt-4o-mini'') (7 / 10) 1200)
           (take (length new) items)
     \<and> length new \<le> length items
     \<and> (\<forall>c \<in> set (butlast new). \<not> isl (snd c))
     \<and> (case res of
          Inl e \<Rightarrow> new \<noteq> [] \<and> snd (last new) = Inl e
        | Inr rs \<Rightarrow> length new = length items \<and> (\<forall>c \<in> set new. \<not> isl (snd c)))"
proof (induction items arbitrary: results w calls)
  case Nil
  then show ?case by auto
next
  case (Cons item items)
  obtain name prompt where item: "item = (name, prompt)"
    by (cases item)
  let ?rq = "chat_request prompt (lit ''gpt-4o-mini'') (7 / 10) 1200"
  obtain out w1 calls1 where
    call: "call_openai_single create prompt (lit ''gpt-4o-mini'') (7 / 10) 1200 (w, calls) = (out, (w1, calls1))"
    by (metis surj_pair)
  from call_openai_single_trace [OF call] have calls1: "calls1 = calls @ [(?rq, out)]" .
  show ?case
  proof (cases out)
    case (Inl e)
    with Cons.prems call item have "res = Inl e" and "calls' = calls1"
      by simp_all
    with calls1 Inl have "calls' = calls @ [(?rq, out)]" and "res = Inl e" and "out = Inl e"
      by simp_all
    then show ?thesis
      by (intro exI [of _ "[(?rq, out)]"]) (simp add: item)
  next
    case (Inr ai_response)
    with Cons.prems call item have
      rest: "analyses_loop create (AList.update name ai_response results) items (w1, calls1) = (res, (w', calls'))"
      by simp
    from Cons.IH [OF rest] obtain new where
      new: "calls' = calls1 @ new"
        "map fst new =
           map (\<lambda>item. chat_request (snd item) (lit ''gpt-4o-mini'') (7 / 10) 1200)
             (take (length new) items)"
        "length new \<le> length items"
        "\<forall>c \<in> set (butlast new). \<not> isl (snd c)"
        "case res of
          Inl e \<Rightarrow> new \<noteq> [] \<and> snd (last new) = Inl e
        | Inr rs \<Rightarrow> length new = length items \<and> (\<forall>c \<in> set new. \<not> isl (snd c))"
      by blast
    have "calls' = calls @ ((?rq, out) # new)"
      using new(1) calls1 by simp
    moreover have "map fst ((?rq, out) # new) =
        map (\<lambda>item. chat_request (snd item) (lit ''gpt-4o-mini'') (7 / 10) 1200)
          (take (length ((?rq, out) # new)) (item # items))"
      using new(2) by (simp add: item)
    moreover have "length ((?rq, out) # new) \<le> length (item # items)"
      using new(3) by simp
    moreover have "\<forall>c \<in> set (butlast ((?rq, out) # new)). \<not> isl (snd c)"
      using new(4) Inr by auto
    moreover have "case res of
          Inl e \<Rightarrow> (?rq, out) # new \<noteq> [] \<and> snd (last ((?rq, out) # new)) = Inl e
        | Inr rs \<Rightarrow> length ((?rq, out) # new) = length (item # items)
            \<and> (\<forall>c \<in> set ((?rq, out) # new). \<not> isl (snd c))"
      using new(5) Inr by (auto split: sum.splits)
    ultimately show ?thesis by blast
  qed
qed

lemma length_prompts: "length (prompts screenplay_text) = 9"
  by (simp add: prompts_def)

lemma prompts_keys: "map fst (prompts screenplay_text) = categories"
  by (simp add: prompts_def categories_def)

lemma lit_append: "lit (a @ b) = lit a @ lit b"
  by (simp add: lit_def)

lemma prompts_instructions:
  "prompts screenplay_text =
     map (\<lambda>(c, instruction). (c, instruction @ screenplay_block screenplay_text)) instructions"
  by (simp add: prompts_def instructions_def screenplay_block_def flip: lit_append)

lemma instructions_keys: "map fst instructions = categories"
  by (simp add: instructions_def categories_def)

text \<open>
  Claim C4. In a run of \<open>get_all_analyses_single\<close> that starts with an empty trace, if
  the call at position \<open>i\<close> of the trace failed with \<open>e\<close>, then the run ends with \<open>e\<close> and
  with no result mapping, that call is the last one issued, and the calls issued are those
  of the first \<open>i + 1\<close> categories in the fixed order: no later category is called.
\<close>

theorem failed_call_aborts_batch:
  assumes run: "get_all_analyses_single create screenplay_text (w, []) = (res, (w', calls))"
    and i: "i < length calls" and fails: "snd (calls ! i) = Inl e"
  shows "res = Inl e \<and> length calls = Suc i \<and> i < length categories
     \<and> map fst calls =
         map (\<lambda>item. chat_request (snd item) (lit ''gpt-4o-mini'') (7 / 10) 1200)
           (take (Suc i) (prompts screenplay_text))"
proof -
  from analyses_loop_trace [OF run [unfolded get_all_analyses_single_def]]
  have reqs: "map fst calls =
         map (\<lambda>item. chat_request (snd item) (lit ''gpt-4o-mini'') (7 / 10) 1200)
           (take (length calls) (prompts screenplay_text))"
    and len: "length calls \<le> length (prompts screenplay_text)"
    and before: "\<forall>c \<in> set (butlast calls). \<not> isl (snd c)"
    and final: "case res of
          Inl e \<Rightarrow> calls \<noteq> [] \<and> snd (last calls) = Inl e
        | Inr rs \<Rightarrow> length calls = length (prompts screenplay_text) \<and> (\<forall>c \<in> set calls. \<not> isl (snd c))"
    by auto
  have at_end: "Suc i = length calls"
  proof (rule ccontr)
    assume "Suc i \<noteq> length calls"
    with i have "i < length (butlast calls)" by simp
    then have "butlast calls ! i \<in> set (butlast calls)" by (rule nth_mem)
    moreover from \<open>i < length (butlast calls)\<close> have "butlast calls ! i = calls ! i"
      by (rule nth_butlast)
    ultimately show False using before fails by auto
  qed
  then have "calls \<noteq> []" by auto
  moreover from at_end have "length calls - 1 = i" by simp
  ultimately have "calls \<noteq> []" and "last calls = calls ! i"
    by (simp_all add: last_conv_nth)
  moreover from i have "calls ! i \<in> set calls" by (rule nth_mem)
  ultimately have "res = Inl e"
    using final fails by (cases res) auto
  with at_end len reqs show ?thesis
    by (simp add: length_prompts categories_def)
qed

theorem failed_call_aborts_batch_witness:
  "1 < length (snd (snd (get_all_analyses_single second_call_fails (lit ''FADE IN'') (0, []))))
   \<and> snd (snd (snd (get_all_analyses_single second_call_fails (lit ''FADE IN'') (0, []))) ! 1)
       = Inl (lit ''connection error'')
   \<and> fst (get_all_analyses_single second_call_fails (lit ''FADE IN'') (0, []))
       = Inl (lit ''connection error'')
   \<and> length (snd (snd (get_all_analyses_single second_call_fails (lit ''FADE IN'') (0, [])))) = 2
   \<and> map fst (snd (snd (get_all_analyses_single second_call_fails (lit ''FADE IN'') (0, [])))) =
       map (\<lambda>item. chat_request (snd item) (lit ''gpt-4o-mini'') (7 / 10) 1200)
         (take 2 (prompts (lit ''FADE IN'')))"
proof -
  let ?run = "get_all_analyses_single second_call_fails (lit ''FADE IN'') (0, [])"
  have run: "?run = (fst ?run, (fst (snd ?run), snd (snd ?run)))"
    by simp
  have len: "length (snd (snd ?run)) = 2"
    by (simp add: get_all_analyses_single_def prompts_def call_openai_single_def
        second_call_fails_def Let_def)
  have i: "1 < length (snd (snd ?run))"
    by (simp add: len)
  have fails: "snd (snd (snd ?run) ! 1) = Inl (lit ''connection error'')"
    by (simp add: get_all_analyses_single_def prompts_def call_openai_single_def
        second_call_fails_def Let_def)
  from failed_call_aborts_batch [OF run i fails] i fails show ?thesis
    by (simp add: numeral_2_eq_2)
qed

text \<open>
  Claim C8. With the empty screenplay, a run in which no call fails issues nine calls,
  one for each category in the fixed order, and the prompt of each is the instruction of
  its category followed by the screenplay block with nothing between the two markers.
  (A call that fails ends the run, as claim C4 says.)
\<close>

theorem empty_screenplay_nine_calls:
  assumes run: "get_all_analyses_single create [] (w, []) = (res, (w', calls))"
    and ok: "\<forall>c \<in> set calls. \<not> isl (snd c)"
  shows "length calls = 9
     \<and> map fst calls =
         map (\<lambda>(c, instruction).
               chat_request (instruction @ screenplay_block []) (lit ''gpt-4o-mini'') (7 / 10) 1200)
           instructions
     \<and> map fst instructions = categories"
proof -
  from analyses_loop_trace [OF run [unfolded get_all_analyses_single_def]]
  have reqs: "map fst calls =
         map (\<lambda>item. chat_request (snd item) (lit ''gpt-4o-mini'') (7 / 10) 1200)
           (take (length calls) (prompts []))"
    and final: "case res of
          Inl e \<Rightarrow> calls \<noteq> [] \<and> snd (last calls) = Inl e
        | Inr rs \<Rightarrow> length calls = length (prompts []) \<and> (\<forall>c \<in> set calls. \<not> isl (snd c))"
    by auto
  have len: "length calls = length (prompts [])"
  proof (cases res)
    case (Inl e)
    with final have "calls \<noteq> []" and "snd (last calls) = Inl e" by simp_all
    with ok show ?thesis by (metis last_in_set sum.disc(1))
  next
    case (Inr rs)
    with final show ?thesis by simp
  qed
  with reqs have "map fst calls =
      map (\<lambda>item. chat_request (snd item) (lit ''gpt-4o-mini'') (7 / 10) 1200) (prompts [])"
    by simp
  also have "\<dots> = map (\<lambda>(c, instruction).
               chat_request (instruction @ screenplay_block []) (lit ''gpt-4o-mini'') (7 / 10) 1200)
           instructions"
    by (simp add: prompts_instructions [of "[]"] split_def)
  finally show ?thesis
    using len by (simp add: length_prompts instructions_keys)
qed

theorem empty_screenplay_nine_calls_witness:
  "map snd (snd (snd (get_all_analyses_single steady_service [] (0, []))))
       = replicate 9 (Inr (lit ''**ok**''))
   \<and> length (snd (snd (get_all_analyses_single steady_service [] (0, [])))) = 9
   \<and> map fst (snd (snd (get_all_analyses_single steady_service [] (0, [])))) =
       map (\<lambda>(c, instruction).
             chat_request (instruction @ screenplay_block []) (lit ''gpt-4o-mini'') (7 / 10) 1200)
         instructions"
proof -
  let ?run = "get_all_analyses_single steady_service [] (0, [])"
  have run: "?run = (fst ?run, (fst (snd ?run), snd (snd ?run)))"
    by simp
  have outs: "map snd (snd (snd ?run)) = replicate 9 (Inr (lit ''**ok**''))"
    by (simp add: get_all_analyses_single_def prompts_def call_openai_single_def
        steady_service_def Let_def eval_nat_numeral)
  then have "set (map snd (snd (snd ?run))) \<subseteq> {Inr (lit ''**ok**'')}"
    by simp
  then have ok: "\<forall>c \<in> set (snd (snd ?run)). \<not> isl (snd c)"
    by auto
  from empty_screenplay_nine_calls [OF run ok] outs show ?thesis
    by simp
qed

text \<open>
  A run that ends without an exception returns a mapping with the nine category labels as
  its keys, in the fixed order: the keys of \<open>prompts\<close> are distinct, so each assignment
  appends a new key.
\<close>


lemma update_new_key: "k \<notin> fst ` set al \<Longrightarrow> AList.update k v al = al @ [(k, v)]"
  by (induction al) auto

lemma analyses_loop_keys:
  "analyses_loop create results items s = (Inr rs, s') \<Longrightarrow>
   distinct (map fst results @ map fst items) \<Longrightarrow>
   map fst rs = map fst results @ map fst items"
proof (induction items arbitrary: results s)
  case Nil
  then show ?case by simp
next
  case (Cons item items)
  obtain name prompt where item: "item = (name, prompt)"
    by (cases item)
  obtain out s1 where
    call: "call_openai_single create prompt (lit ''gpt-4o-mini'') (7 / 10) 1200 s = (out, s1)"
    by (cases "call_openai_single create prompt (lit ''gpt-4o-mini'') (7 / 10) 1200 s")
  show ?case
  proof (cases out)
    case (Inl e)
    with Cons.prems(1) call item show ?thesis by simp
  next
    case (Inr ai_response)
    from Cons.prems(2) item have new: "name \<notin> fst ` set results"
      by auto
    then have upd: "AList.update name ai_response results = results @ [(name, ai_response)]"
      by (rule update_new_key)
    from Inr Cons.prems(1) call item have
      "analyses_loop create (results @ [(name, ai_response)]) items s1 = (Inr rs, s')"
      by (simp add: upd)
    moreover from Cons.prems(2) item have
      "distinct (map fst (results @ [(name, ai_response)]) @ map fst items)"
      by auto
    ultimately have "map fst rs = map fst (results @ [(name, ai_response)]) @ map fst items"
      by (rule Cons.IH)
    then show ?thesis by (simp add: item)
  qed
qed

lemma distinct_categories: "distinct categories"
  by (simp add: categories_def lit_def)

lemma get_all_analyses_single_keys:
  assumes "get_all_analyses_single create screenplay_text s = (Inr rs, s')"
  shows "map fst rs = categories"
proof -
  have "distinct (map fst ([] :: (pystr \<times> pystr) list) @ map fst (prompts screenplay_text))"
    by (simp only: prompts_keys distinct_categories list.map append_Nil)
  with assms [unfolded get_all_analyses_single_def]
  have "map fst rs = map fst ([] :: (pystr \<times> pystr) list) @ map fst (prompts screenplay_text)"
    by (rule analyses_loop_keys)
  then show ?thesis
    by (simp only: prompts_keys list.map append_Nil)
qed

end
